theory Spec2Isabelle
  imports Main "HOL-Library.AList"
begin

section \<open>The store of app.py: posts, reaction tallies, feed pages\<close>

text \<open>
  The program keeps two SQLite tables, \<open>posts(id PRIMARY KEY, text, ts)\<close> and
  \<open>reactions(post_id, type, count, PRIMARY KEY(post_id, type))\<close>, and reaches them
  through four coroutines (\<open>init_db\<close>, \<open>add_post\<close>, \<open>get_feed\<close>, \<open>inc_reaction\<close>),
  three HTTP handlers and one bot handler. Each coroutine opens its own connection and
  commits once, so it is modelled as one function from the database before the call to
  a result and the database after it; a raised exception is the \<open>Inl\<close> branch of a sum
  and leaves the database as it was (nothing was committed). The exceptions are the
  ones of the code and of the statements it runs: \<open>ValueError\<close> for an undefined
  kind, \<open>IntegrityError\<close> for a taken primary key, and the two the driver raises
  while it binds the parameters of a statement, \<open>OverflowError\<close> for an integer
  outside signed 64 bits and \<open>UnicodeEncodeError\<close> for a string with a surrogate
  code point.

  Modelling decisions:
  \<^item> a table is the list of its rows in insertion order, a row is a tuple as the code
    unpacks it;
  \<^item> a Python \<open>str\<close> is the list of its Unicode code points (\<open>nat list\<close>), since
    \<open>str.strip\<close> works on code points; \<open>py_str\<close> embeds an ASCII literal;
  \<^item> Python integers are \<open>int\<close>. A table holds only what a statement could bind,
    so values read from a table bind again without an error; the counters stay far
    below the end of the 64-bit range;
  \<^item> the two reads of \<open>time.time()\<close> in \<open>add_post\<close> are the parameters \<open>now_ms\<close>
    (the value of \<open>int(time.time() * 1000)\<close>) and \<open>now_s\<close> (the value of
    \<open>int(time.time())\<close>);
  \<^item> \<open>BOT_SECRET\<close> comes from the configuration module and is a parameter.
\<close>

subsection \<open>Strings\<close>

type_synonym pystr = "nat list"

definition py_str :: "string \<Rightarrow> pystr" where
  "py_str s = map of_char s"



text \<open>
  What the driver can bind as a parameter of a statement: an integer that fits
  SQLite's signed 64-bit \<open>INTEGER\<close> (otherwise \<open>OverflowError\<close>), and a string that
  has a UTF-8 encoding, that is, one without a code point in the surrogate range
  U+D800 to U+DFFF (otherwise \<open>UnicodeEncodeError\<close>).
\<close>

definition sql_int :: "int \<Rightarrow> bool" where
  "sql_int n \<longleftrightarrow> - 9223372036854775808 \<le> n \<and> n \<le> 9223372036854775807"

definition is_surrogate :: "nat \<Rightarrow> bool" where
  "is_surrogate c \<longleftrightarrow> 55296 \<le> c \<and> c \<le> 57343"

definition storable :: "pystr \<Rightarrow> bool" where
  "storable s \<longleftrightarrow> list_all (\<lambda>c. \<not> is_surrogate c) s"

subsection \<open>Tables\<close>

type_synonym post_row = "int \<times> pystr \<times> int"
type_synonym reaction_row = "int \<times> pystr \<times> int"

record db =
  posts :: "post_row list"
  reactions :: "reaction_row list"

datatype error = IntegrityError | ValueError pystr | OverflowError | UnicodeEncodeError

definition REACTIONS :: "pystr list" where
  "REACTIONS = [py_str ''support'', py_str ''hug'', py_str ''sad'']"

definition post_ids :: "db \<Rightarrow> int list" where
  "post_ids d = map fst (posts d)"

definition reaction_keys :: "db \<Rightarrow> (int \<times> pystr) list" where
  "reaction_keys d = map (\<lambda>(p, t, c). (p, t)) (reactions d)"

text \<open>
  \<open>init_db\<close>: \<open>CREATE TABLE IF NOT EXISTS\<close> for both tables. On a new database file
  (\<open>None\<close>) both tables come out empty; existing tables are left as they are.
\<close>

definition init_db :: "db option \<Rightarrow> db" where
  "init_db f = (case f of None \<Rightarrow> \<lparr>posts = [], reactions = []\<rparr> | Some d \<Rightarrow> d)"

text \<open>
  \<open>INSERT OR IGNORE INTO reactions(post_id, type, count) VALUES(?,?,0)\<close>: a row whose
  primary key is taken already is skipped, any other is appended.
\<close>

definition insert_or_ignore_reaction :: "int \<Rightarrow> pystr \<Rightarrow> db \<Rightarrow> db" where
  "insert_or_ignore_reaction pid t d =
     (if (pid, t) \<in> set (reaction_keys d) then d
      else d\<lparr>reactions := reactions d @ [(pid, t, 0)]\<rparr>)"

text \<open>
  \<open>add_post\<close>: the parameters \<open>(pid, text, ts)\<close> of the \<open>INSERT INTO posts\<close> are bound
  in this order, and the first that cannot be bound raises. The plain \<open>INSERT\<close> then
  raises \<open>IntegrityError\<close> when the id is a primary key of the table already. Every
  exception leaves the \<open>async with\<close> block before \<open>commit\<close>, so nothing is written.
  Otherwise the three tallies are seeded in the order of \<open>REACTIONS\<close> (their
  parameters are the id just bound and the kinds of \<open>REACTIONS\<close>) and the id is
  returned.
\<close>

definition add_post :: "int \<Rightarrow> int \<Rightarrow> pystr \<Rightarrow> db \<Rightarrow> error + (int \<times> db)" where
  "add_post now_ms now_s text d =
     (let pid = now_ms; ts = now_s in
      if \<not> sql_int pid then Inl OverflowError
      else if \<not> storable text then Inl UnicodeEncodeError
      else if \<not> sql_int ts then Inl OverflowError
      else if pid \<in> set (post_ids d) then Inl IntegrityError
      else Inr (pid, fold (insert_or_ignore_reaction pid) REACTIONS
                       (d\<lparr>posts := posts d @ [(pid, text, ts)]\<rparr>)))"

subsection \<open>The feed\<close>

text \<open>
  \<open>ORDER BY id DESC\<close> and \<open>LIMIT ?\<close>. In SQLite a negative \<open>LIMIT\<close> puts no bound on
  the number of rows.
\<close>

definition order_by_id_desc :: "post_row list \<Rightarrow> post_row list" where
  "order_by_id_desc rows = rev (sort_key fst rows)"

definition sql_limit :: "int \<Rightarrow> 'a list \<Rightarrow> 'a list" where
  "sql_limit n rows = (if n < 0 then rows else take (nat n) rows)"

text \<open>Python's truth value of an \<open>int | None\<close>: \<open>None\<close> and \<open>0\<close> are false.\<close>

definition truthy :: "int option \<Rightarrow> bool" where
  "truthy c = (case c of None \<Rightarrow> False | Some n \<Rightarrow> n \<noteq> 0)"

text \<open>
  A dict comprehension \<open>{t: c for t, c in rrows}\<close>: a later pair with a key seen
  before overwrites the value in place, a new key goes to the end.
\<close>

definition dict_of :: "('k \<times> 'v) list \<Rightarrow> ('k \<times> 'v) list" where
  "dict_of kvs = fold (\<lambda>(k, v). AList.update k v) kvs []"

record feed_item =
  item_id :: int
  item_text :: pystr
  item_ts :: int
  item_reactions :: "(pystr \<times> int) list"

text \<open>
  \<open>SELECT type, count FROM reactions WHERE post_id = ?\<close>. The query has no
  \<open>ORDER BY\<close>; the rows are taken in table order here, and nothing below depends on
  their order.
\<close>

definition select_reactions :: "int \<Rightarrow> db \<Rightarrow> (pystr \<times> int) list" where
  "select_reactions pid d =
     map (\<lambda>(p, t, c). (t, c)) (filter (\<lambda>(p, t, c). p = pid) (reactions d))"

text \<open>
  \<open>get_feed\<close>: with a cursor that is true for Python the first query binds
  \<open>(cursor, limit)\<close>, otherwise \<open>(limit,)\<close>; a value outside 64 bits raises
  \<open>OverflowError\<close>. The query per row binds an id read from the table.
\<close>

definition select_posts :: "int option \<Rightarrow> int \<Rightarrow> db \<Rightarrow> error + post_row list" where
  "select_posts cursor limit d =
     (if truthy cursor
      then (if \<not> sql_int (the cursor) \<or> \<not> sql_int limit then Inl OverflowError
            else Inr (sql_limit limit
                   (order_by_id_desc (filter (\<lambda>(i, text, ts). i < the cursor) (posts d)))))
      else (if \<not> sql_int limit then Inl OverflowError
            else Inr (sql_limit limit (order_by_id_desc (posts d)))))"

definition get_feed :: "int option \<Rightarrow> int \<Rightarrow> db \<Rightarrow> error + feed_item list" where
  "get_feed cursor limit d =
     (case select_posts cursor limit d of
        Inl e \<Rightarrow> Inl e
      | Inr rows \<Rightarrow>
          Inr (map (\<lambda>(pid, text, ts).
                     \<lparr>item_id = pid, item_text = text, item_ts = ts,
                      item_reactions = dict_of (select_reactions pid d)\<rparr>) rows))"

text \<open>The columns of the post row an item was built from.\<close>

definition item_row :: "feed_item \<Rightarrow> post_row" where
  "item_row it = (item_id it, item_text it, item_ts it)"

subsection \<open>Reactions\<close>

text \<open>
  \<open>inc_reaction\<close> checks the kind before it opens the database. The
  \<open>UPDATE reactions SET count = count + 1 WHERE post_id = ? AND type = ?\<close> binds
  \<open>(post_id, rtype)\<close>, the kind being one of \<open>REACTIONS\<close> by then, and touches
  every row with that key and no other.
\<close>

definition inc_reaction :: "int \<Rightarrow> pystr \<Rightarrow> db \<Rightarrow> error + db" where
  "inc_reaction post_id rtype d =
     (if rtype \<notin> set REACTIONS then Inl (ValueError (py_str ''bad reaction''))
      else if \<not> sql_int post_id then Inl OverflowError
      else Inr (d\<lparr>reactions :=
                  map (\<lambda>(p, t, c). if p = post_id \<and> t = rtype then (p, t, c + 1) else (p, t, c))
                      (reactions d)\<rparr>))"

subsection \<open>HTTP handlers\<close>

text \<open>
  A handler returns its JSON value, raises \<open>HTTPException(status, detail)\<close>, or lets
  another exception escape to the framework (\<open>Unhandled\<close>, a server error).
  \<open>api_feed\<close> raises nothing of its own: its result is the one of \<open>get_feed\<close>, the
  list or the exception that escapes.
\<close>

datatype http_error = HTTPException int pystr | Unhandled error

datatype json_ok = Ok | OkId int

definition api_feed :: "int option \<Rightarrow> int option \<Rightarrow> db \<Rightarrow> error + feed_item list" where
  "api_feed cursor limit d =
     get_feed cursor (min (case limit of None \<Rightarrow> 20 | Some l \<Rightarrow> l) 50) d"


definition api_react :: "int \<Rightarrow> pystr \<Rightarrow> db \<Rightarrow> (http_error + json_ok) \<times> db" where
  "api_react post_id data_type d =
     (case inc_reaction post_id data_type d of
        Inl (ValueError m) \<Rightarrow> (Inl (HTTPException 400 (py_str ''bad reaction'')), d)
      | Inl e \<Rightarrow> (Inl (Unhandled e), d)
      | Inr d' \<Rightarrow> (Inr Ok, d'))"

subsection \<open>The bot's handler for the text of a new post\<close>




subsection \<open>Store operations as steps\<close>

datatype store_op =
    InitDb
  | AddPost int int pystr
  | GetFeed "int option" int
  | IncReaction int pystr

text \<open>The database after an operation; a failed or read-only one leaves it as it was.\<close>

fun exec_op :: "store_op \<Rightarrow> db \<Rightarrow> db" where
  "exec_op InitDb d = init_db (Some d)"
| "exec_op (AddPost now_ms now_s text) d =
     (case add_post now_ms now_s text d of Inl e \<Rightarrow> d | Inr (pid, d') \<Rightarrow> d')"
| "exec_op (GetFeed cursor limit) d = d"
| "exec_op (IncReaction post_id rtype) d =
     (case inc_reaction post_id rtype d of Inl e \<Rightarrow> d | Inr d' \<Rightarrow> d')"

text \<open>
  The invariant of the store: primary keys are unique, every tally belongs to an
  existing post and to a defined kind, and every post has a tally of every defined kind.
\<close>

definition store_inv :: "db \<Rightarrow> bool" where
  "store_inv d \<longleftrightarrow>
     distinct (post_ids d) \<and> distinct (reaction_keys d) \<and>
     (\<forall>(p, t) \<in> set (reaction_keys d). p \<in> set (post_ids d) \<and> t \<in> set REACTIONS) \<and>
     (\<forall>p \<in> set (post_ids d). \<forall>t \<in> set REACTIONS. (p, t) \<in> set (reaction_keys d))"

text \<open>The counts stored under a key: \<open>SELECT count ... WHERE post_id = ? AND type = ?\<close>.\<close>

definition tally :: "db \<Rightarrow> int \<Rightarrow> pystr \<Rightarrow> int list" where
  "tally d pid t = map (\<lambda>(p, k, c). c) (filter (\<lambda>(p, k, c). p = pid \<and> k = t) (reactions d))"

subsection \<open>Successive calls of add_post\<close>

text \<open>
  A run of \<open>add_post\<close> calls, each with its two clock readings and its text, from a
  given store: the result of every call in order (the id returned or the exception
  raised) and the store at the end. \<open>returned_ids\<close> keeps the ids of the calls that
  returned.
\<close>

fun add_posts :: "(int \<times> int \<times> pystr) list \<Rightarrow> db \<Rightarrow> (error + int) list \<times> db" where
  "add_posts [] d = ([], d)"
| "add_posts ((now_ms, now_s, text) # calls) d =
     (case add_post now_ms now_s text d of
        Inl e \<Rightarrow> (let (rs, d') = add_posts calls d in (Inl e # rs, d'))
      | Inr (pid, d1) \<Rightarrow> (let (rs, d') = add_posts calls d1 in (Inr pid # rs, d')))"


subsection \<open>Example stores\<close>

text \<open>
  Three posts created at the clock readings 100, 200 and 300 on a new database, and
  the store of 51 posts with the ids 1 to 51, each with its three tallies at 0, which
  51 calls of \<open>add_post\<close> at the readings 1 to 51 leave behind.
\<close>

definition db3 :: db where
  "db3 = exec_op (AddPost 300 0 (py_str ''c''))
           (exec_op (AddPost 200 0 (py_str ''b''))
              (exec_op (AddPost 100 0 (py_str ''a'')) (init_db None)))"

definition db51 :: db where
  "db51 = \<lparr>posts = map (\<lambda>i. (i, py_str ''x'', i)) [1..51],
            reactions = concat (map (\<lambda>i. map (\<lambda>t. (i, t, 0)) REACTIONS) [1..51])\<rparr>"

section \<open>Reactions\<close>

lemma REACTIONS_iff:
  "t \<in> set REACTIONS \<longleftrightarrow> t = py_str ''support'' \<or> t = py_str ''hug'' \<or> t = py_str ''sad''"
  by (auto simp: REACTIONS_def)

lemma love_not_reaction: "py_str ''love'' \<notin> set REACTIONS"
  by (simp add: REACTIONS_def py_str_def)

lemma hug_reaction: "py_str ''hug'' \<in> set REACTIONS"
  by (simp add: REACTIONS_def)

lemma db3_value:
  "db3 = \<lparr>posts = [(100, py_str ''a'', 0), (200, py_str ''b'', 0), (300, py_str ''c'', 0)],
          reactions =
            [(100, py_str ''support'', 0), (100, py_str ''hug'', 0), (100, py_str ''sad'', 0),
             (200, py_str ''support'', 0), (200, py_str ''hug'', 0), (200, py_str ''sad'', 0),
             (300, py_str ''support'', 0), (300, py_str ''hug'', 0), (300, py_str ''sad'', 0)]\<rparr>"
  by (simp add: db3_def add_post_def init_db_def REACTIONS_def py_str_def
      insert_or_ignore_reaction_def post_ids_def reaction_keys_def
      sql_int_def storable_def is_surrogate_def)

lemma inc_rows_absent:
  "(pid, k) \<notin> set (map (\<lambda>(p, t, c). (p, t)) rows) \<Longrightarrow>
   map (\<lambda>(p, t, c). if p = pid \<and> t = k then (p, t, c + 1) else (p, t, c)) rows = rows"
  by (induction rows) auto

text \<open>
  Claim C4. \<open>inc_reaction\<close> raises \<open>ValueError\<close> exactly when the kind is not one of
  support, hug, sad; in that case the store is left as it was and the handler of
  \<open>POST /posts/{id}/react\<close> answers with status 400. The only other exception is the
  driver's for a post id outside 64 bits, which needs a defined kind.
\<close>

theorem inc_reaction_invalid_kind:
  "(inc_reaction post_id rtype d = Inl (ValueError (py_str ''bad reaction'')) \<longleftrightarrow>
      rtype \<notin> set REACTIONS) \<and>
   ((\<exists>e. inc_reaction post_id rtype d = Inl e) \<longleftrightarrow>
      rtype \<notin> set REACTIONS \<or> \<not> sql_int post_id) \<and>
   (rtype \<notin> set REACTIONS \<longrightarrow>
      exec_op (IncReaction post_id rtype) d = d \<and>
      api_react post_id rtype d = (Inl (HTTPException 400 (py_str ''bad reaction'')), d))"
  by (simp add: inc_reaction_def api_react_def)

theorem inc_reaction_invalid_kind_witness:
  "py_str ''love'' \<notin> set REACTIONS \<and>
   inc_reaction 100 (py_str ''love'') db3 = Inl (ValueError (py_str ''bad reaction'')) \<and>
   exec_op (IncReaction 100 (py_str ''love'')) db3 = db3 \<and>
   api_react 100 (py_str ''love'') db3 =
     (Inl (HTTPException 400 (py_str ''bad reaction'')), db3)"
  using inc_reaction_invalid_kind [of 100 "py_str ''love''" db3] love_not_reaction
  by simp

text \<open>
  Claim C5, as amended. For a defined kind and a post id within signed 64 bits with
  no tally row under that key, \<open>inc_reaction\<close> returns without an error and with the
  store as it was (no row added, none changed), and the handler answers
  \<open>{"ok": true}\<close>.
\<close>

theorem inc_reaction_missing_row:
  "rtype \<in> set REACTIONS \<Longrightarrow> (post_id, rtype) \<notin> set (reaction_keys d) \<Longrightarrow>
   sql_int post_id \<Longrightarrow>
   inc_reaction post_id rtype d = Inr d \<and> api_react post_id rtype d = (Inr Ok, d)"
  by (simp add: inc_reaction_def api_react_def reaction_keys_def inc_rows_absent)

theorem inc_reaction_missing_row_witness:
  "py_str ''hug'' \<in> set REACTIONS \<and> (999, py_str ''hug'') \<notin> set (reaction_keys db3) \<and>
   sql_int 999 \<and>
   inc_reaction 999 (py_str ''hug'') db3 = Inr db3 \<and>
   api_react 999 (py_str ''hug'') db3 = (Inr Ok, db3)"
proof -
  have k: "(999, py_str ''hug'') \<notin> set (reaction_keys db3)"
    by (simp add: reaction_keys_def db3_value)
  have r: "sql_int 999"
    by (simp add: sql_int_def)
  show ?thesis
    using inc_reaction_missing_row [OF hug_reaction k r] hug_reaction k r by simp
qed

text \<open>
  A post id of \<open>2^63\<close> has no tally row, the kind is defined, and yet the call
  raises: the driver cannot bind the id, the handler does not catch the exception and
  the request ends in a server error instead of \<open>{"ok": true}\<close>.
\<close>

theorem inc_reaction_missing_row_counterexample:
  "py_str ''hug'' \<in> set REACTIONS \<and>
   (9223372036854775808, py_str ''hug'') \<notin> set (reaction_keys db3) \<and>
   inc_reaction 9223372036854775808 (py_str ''hug'') db3 = Inl OverflowError \<and>
   api_react 9223372036854775808 (py_str ''hug'') db3 = (Inl (Unhandled OverflowError), db3)"
proof -
  have k: "(9223372036854775808, py_str ''hug'') \<notin> set (reaction_keys db3)"
    by (simp add: reaction_keys_def db3_value)
  have r: "\<not> sql_int 9223372036854775808"
    by (simp add: sql_int_def)
  show ?thesis
    using hug_reaction k r by (simp add: inc_reaction_def api_react_def)
qed

lemma REACTIONS_distinct: "distinct REACTIONS"
  by (simp add: REACTIONS_def py_str_def)

lemma inc_rows_keys:
  "map (\<lambda>(p, t, c). (p, t))
     (map (\<lambda>(p, t, c). if p = pid \<and> t = k then (p, t, c + n) else (p, t, c)) rows) =
   map (\<lambda>(p, t, c). (p, t)) rows"
  by (induction rows) auto

lemma inc_rows_add:
  "map (\<lambda>(p, t, c). if p = pid \<and> t = k then (p, t, c + (1::int)) else (p, t, c))
     (map (\<lambda>(p, t, c). if p = pid \<and> t = k then (p, t, c + n) else (p, t, c)) rows) =
   map (\<lambda>(p, t, c). if p = pid \<and> t = k then (p, t, c + (n + 1)) else (p, t, c)) rows"
  by (induction rows) auto

lemma inc_rows_tally_same:
  "map (\<lambda>(p, t, c). c) (filter (\<lambda>(p, t, c). p = pid \<and> t = k)
     (map (\<lambda>(p, t, c). if p = pid \<and> t = k then (p, t, c + n) else (p, t, c)) rows)) =
   map (\<lambda>c. c + n) (map (\<lambda>(p, t, c). c) (filter (\<lambda>(p, t, c). p = pid \<and> t = k) rows))"
  by (induction rows) (auto simp: case_prod_unfold)

lemma inc_rows_tally_other:
  "(q, u) \<noteq> (pid, k) \<Longrightarrow>
   map (\<lambda>(p, t, c). c) (filter (\<lambda>(p, t, c). p = q \<and> t = u)
     (map (\<lambda>(p, t, c). if p = pid \<and> t = k then (p, t, c + n) else (p, t, c)) rows)) =
   map (\<lambda>(p, t, c). c) (filter (\<lambda>(p, t, c). p = q \<and> t = u) rows)"
  by (induction rows) (auto simp: case_prod_unfold)

lemma inc_reaction_valid:
  "rtype \<in> set REACTIONS \<Longrightarrow> sql_int post_id \<Longrightarrow>
   inc_reaction post_id rtype d =
     Inr (d\<lparr>reactions :=
            map (\<lambda>(p, t, c). if p = post_id \<and> t = rtype then (p, t, c + 1) else (p, t, c))
                (reactions d)\<rparr>)"
  by (simp add: inc_reaction_def)

lemma exec_inc_valid:
  "rtype \<in> set REACTIONS \<Longrightarrow> sql_int post_id \<Longrightarrow>
   exec_op (IncReaction post_id rtype) d =
     d\<lparr>reactions :=
         map (\<lambda>(p, t, c). if p = post_id \<and> t = rtype then (p, t, c + 1) else (p, t, c))
             (reactions d)\<rparr>"
  by (simp add: inc_reaction_def)

lemma exec_inc3:
  assumes "rtype \<in> set REACTIONS" and "sql_int post_id"
  shows "exec_op (IncReaction post_id rtype)
           (exec_op (IncReaction post_id rtype) (exec_op (IncReaction post_id rtype) d)) =
         d\<lparr>reactions :=
             map (\<lambda>(p, t, c). if p = post_id \<and> t = rtype then (p, t, c + 3) else (p, t, c))
                 (reactions d)\<rparr>"
  using assms by (auto simp: inc_reaction_def case_prod_unfold)

text \<open>
  Claim C6. For a defined kind and a tally that holds one row of count 0 (as seeded
  by \<open>add_post\<close>), three calls of \<open>inc_reaction\<close> in a row all return, leave that
  tally at 3, and change no other row: every other tally, the keys of the table and
  the posts are as before. The post exists, so its id is one the table stores, a
  signed 64-bit integer.
\<close>

theorem inc_reaction_three_times:
  assumes "rtype \<in> set REACTIONS" and "tally d post_id rtype = [0]" and "sql_int post_id"
  shows "let d1 = exec_op (IncReaction post_id rtype) d;
             d2 = exec_op (IncReaction post_id rtype) d1;
             d3 = exec_op (IncReaction post_id rtype) d2
         in inc_reaction post_id rtype d = Inr d1 \<and>
            inc_reaction post_id rtype d1 = Inr d2 \<and>
            inc_reaction post_id rtype d2 = Inr d3 \<and>
            tally d3 post_id rtype = [3] \<and>
            (\<forall>p t. (p, t) \<noteq> (post_id, rtype) \<longrightarrow> tally d3 p t = tally d p t) \<and>
            reaction_keys d3 = reaction_keys d \<and>
            reactions d3 =
              map (\<lambda>(p, t, c). if p = post_id \<and> t = rtype then (p, t, c + 3) else (p, t, c))
                  (reactions d) \<and>
            posts d3 = posts d"
proof -
  let ?d1 = "exec_op (IncReaction post_id rtype) d"
  let ?d2 = "exec_op (IncReaction post_id rtype) ?d1"
  let ?d3 = "exec_op (IncReaction post_id rtype) ?d2"
  have calls: "inc_reaction post_id rtype x = Inr (exec_op (IncReaction post_id rtype) x)" for x
    using assms(1,3) by (simp add: inc_reaction_def)
  have d3: "?d3 = d\<lparr>reactions :=
             map (\<lambda>(p, t, c). if p = post_id \<and> t = rtype then (p, t, c + 3) else (p, t, c))
                 (reactions d)\<rparr>"
    by (rule exec_inc3 [OF assms(1,3)])
  have t3: "tally ?d3 post_id rtype = [3]"
  proof -
    have "tally ?d3 post_id rtype = map (\<lambda>c. c + 3) (tally d post_id rtype)"
      unfolding d3 tally_def using inc_rows_tally_same [of post_id rtype 3 "reactions d"] by simp
    then show ?thesis using assms(2) by simp
  qed
  have other: "\<forall>p t. (p, t) \<noteq> (post_id, rtype) \<longrightarrow> tally ?d3 p t = tally d p t"
    unfolding d3 tally_def using inc_rows_tally_other [of _ _ post_id rtype 3 "reactions d"]
    by simp
  have keys: "reaction_keys ?d3 = reaction_keys d"
    unfolding d3 reaction_keys_def using inc_rows_keys [of post_id rtype 3 "reactions d"] by simp
  have rows: "reactions ?d3 =
      map (\<lambda>(p, t, c). if p = post_id \<and> t = rtype then (p, t, c + 3) else (p, t, c)) (reactions d)"
    unfolding d3 by simp
  have ps: "posts ?d3 = posts d"
    unfolding d3 by simp
  show ?thesis
    unfolding Let_def using calls t3 other keys rows ps by blast
qed

theorem inc_reaction_three_times_witness:
  "py_str ''hug'' \<in> set REACTIONS \<and> tally db3 200 (py_str ''hug'') = [0] \<and> sql_int 200 \<and>
   tally (exec_op (IncReaction 200 (py_str ''hug''))
           (exec_op (IncReaction 200 (py_str ''hug''))
             (exec_op (IncReaction 200 (py_str ''hug'')) db3))) 200 (py_str ''hug'') = [3] \<and>
   posts (exec_op (IncReaction 200 (py_str ''hug''))
           (exec_op (IncReaction 200 (py_str ''hug''))
             (exec_op (IncReaction 200 (py_str ''hug'')) db3))) = posts db3"
proof -
  have t: "tally db3 200 (py_str ''hug'') = [0]"
    by (simp add: tally_def db3_value py_str_def)
  have r: "sql_int 200"
    by (simp add: sql_int_def)
  show ?thesis
    using inc_reaction_three_times [OF hug_reaction t r] hug_reaction t r
    by (simp add: Let_def)
qed

section \<open>Creating posts\<close>






lemma seed_fresh:
  assumes "\<And>t. (pid, t) \<notin> set (reaction_keys d)"
  shows "fold (insert_or_ignore_reaction pid) REACTIONS d =
         d\<lparr>reactions := reactions d @
             [(pid, py_str ''support'', 0), (pid, py_str ''hug'', 0), (pid, py_str ''sad'', 0)]\<rparr>"
  using assms
  by (simp add: REACTIONS_def insert_or_ignore_reaction_def reaction_keys_def py_str_def)

lemma store_inv_no_orphan:
  "store_inv d \<Longrightarrow> pid \<notin> set (post_ids d) \<Longrightarrow> (pid, t) \<notin> set (reaction_keys d)"
  by (auto simp: store_inv_def)

lemma add_post_fresh:
  assumes "store_inv d" and "now_ms \<notin> set (post_ids d)"
    and "sql_int now_ms" and "storable text" and "sql_int now_s"
  shows "add_post now_ms now_s text d =
         Inr (now_ms, \<lparr>posts = posts d @ [(now_ms, text, now_s)],
                       reactions = reactions d @
                         [(now_ms, py_str ''support'', 0), (now_ms, py_str ''hug'', 0),
                          (now_ms, py_str ''sad'', 0)]\<rparr>)"
proof -
  let ?d1 = "d\<lparr>posts := posts d @ [(now_ms, text, now_s)]\<rparr>"
  have "(now_ms, t) \<notin> set (reaction_keys ?d1)" for t
    using store_inv_no_orphan [OF assms(1,2)] by (simp add: reaction_keys_def)
  then have "fold (insert_or_ignore_reaction now_ms) REACTIONS ?d1 =
             ?d1\<lparr>reactions := reactions ?d1 @
               [(now_ms, py_str ''support'', 0), (now_ms, py_str ''hug'', 0),
                (now_ms, py_str ''sad'', 0)]\<rparr>"
    by (rule seed_fresh)
  then show ?thesis
    using assms(2-5) by (simp add: add_post_def)
qed

lemma store_inv_add_post:
  assumes "store_inv d" and "pid \<notin> set (post_ids d)"
  shows "store_inv \<lparr>posts = posts d @ [(pid, text, ts)],
                    reactions = reactions d @
                      [(pid, py_str ''support'', 0), (pid, py_str ''hug'', 0),
                       (pid, py_str ''sad'', 0)]\<rparr>"
proof -
  have ne: "py_str ''support'' \<noteq> py_str ''hug''" "py_str ''support'' \<noteq> py_str ''sad''"
    "py_str ''hug'' \<noteq> py_str ''sad''"
    by (simp_all add: py_str_def)
  have orphan: "(pid, t) \<notin> set (reaction_keys d)" for t
    by (rule store_inv_no_orphan [OF assms])
  show ?thesis
    using assms orphan ne unfolding store_inv_def post_ids_def reaction_keys_def REACTIONS_def
    by (auto simp: rev_image_eqI)
qed









section \<open>The ingest endpoint and the text of a post\<close>














section \<open>Ids of successive posts\<close>










section \<open>The feed\<close>

lemma distinct_map_insort_key:
  "distinct (map f (insort_key f x xs)) \<longleftrightarrow> f x \<notin> f ` set xs \<and> distinct (map f xs)"
  by (induction xs) (auto simp: set_insort_key)

lemma distinct_map_sort_key:
  "distinct (map f (sort_key f xs)) \<longleftrightarrow> distinct (map f xs)"
  by (induction xs) (simp_all add: sort_key_simps distinct_map_insort_key)

lemma order_by_id_desc_set: "set (order_by_id_desc rows) = set rows"
  by (simp add: order_by_id_desc_def)

lemma order_by_id_desc_length: "length (order_by_id_desc rows) = length rows"
  by (simp add: order_by_id_desc_def)

lemma order_by_id_desc_sorted:
  assumes "distinct (map fst rows)"
  shows "sorted_wrt (>) (map fst (order_by_id_desc rows))"
proof -
  have "sorted (map fst (sort_key fst rows))"
    by (rule sorted_sort_key)
  moreover have "distinct (map fst (sort_key fst rows))"
    using assms by (simp add: distinct_map_sort_key)
  ultimately have "sorted_wrt (<) (map fst (sort_key fst rows))"
    by (simp add: strict_sorted_iff)
  then have "sorted_wrt (\<lambda>x y. y < x) (rev (map fst (sort_key fst rows)))"
    by (simp add: sorted_wrt_rev)
  then show ?thesis
    by (simp add: order_by_id_desc_def rev_map)
qed

lemma sql_limit_decomp:
  "\<exists>rest. rows = sql_limit n rows @ rest"
proof (cases "n < 0")
  case True
  then show ?thesis by (simp add: sql_limit_def)
next
  case False
  have "rows = take (nat n) rows @ drop (nat n) rows" by simp
  with False show ?thesis unfolding sql_limit_def by (metis (full_types))
qed

lemma sql_limit_length:
  "length (sql_limit n rows) = (if n < 0 then length rows else min (nat n) (length rows))"
  by (simp add: sql_limit_def min.commute)

lemma page_properties:
  fixes n :: int and rows :: "post_row list"
  assumes "distinct (map fst rows)"
  defines "page \<equiv> sql_limit n (order_by_id_desc rows)"
  shows "sorted_wrt (>) (map fst page)"
    and "set page \<subseteq> set rows"
    and "length page = (if n < 0 then length rows else min (nat n) (length rows))"
    and "\<forall>r \<in> set rows. r \<notin> set page \<longrightarrow> (\<forall>q \<in> set page. fst r < fst q)"
proof -
  obtain rest where split: "order_by_id_desc rows = page @ rest"
    unfolding page_def using sql_limit_decomp by blast
  have sorted_all: "sorted_wrt (>) (map fst page @ map fst rest)"
    using order_by_id_desc_sorted [OF assms(1)] split by simp
  then show "sorted_wrt (>) (map fst page)"
    by (simp add: sorted_wrt_append)
  have sets: "set rows = set page \<union> set rest"
    using order_by_id_desc_set [of rows] split by simp
  then show "set page \<subseteq> set rows" by blast
  show "length page = (if n < 0 then length rows else min (nat n) (length rows))"
    unfolding page_def by (simp add: sql_limit_length order_by_id_desc_length)
  show "\<forall>r \<in> set rows. r \<notin> set page \<longrightarrow> (\<forall>q \<in> set page. fst r < fst q)"
  proof (intro ballI impI)
    fix r q assume "r \<in> set rows" "r \<notin> set page" "q \<in> set page"
    then have "r \<in> set rest" using sets by blast
    with \<open>q \<in> set page\<close> sorted_all show "fst r < fst q"
      by (auto simp: sorted_wrt_append)
  qed
qed

lemma item_row_of_rows:
  "map item_row
     (map (\<lambda>(pid, text, ts).
             \<lparr>item_id = pid, item_text = text, item_ts = ts,
              item_reactions = dict_of (select_reactions pid d)\<rparr>) rows) = rows"
  by (induction rows) (auto simp: item_row_def)

lemma get_feed_Inr:
  assumes "select_posts cursor limit d = Inr rows"
  shows "\<exists>items. get_feed cursor limit d = Inr items \<and> map item_row items = rows"
  using assms item_row_of_rows [of d rows] by (simp add: get_feed_def)

lemma get_feed_Inl:
  "select_posts cursor limit d = Inl e \<Longrightarrow> get_feed cursor limit d = Inl e"
  by (simp add: get_feed_def)

lemma get_feed_rows:
  assumes "get_feed cursor limit d = Inr items"
  shows "select_posts cursor limit d = Inr (map item_row items)"
proof (cases "select_posts cursor limit d")
  case (Inl e)
  then show ?thesis using assms by (simp add: get_feed_def)
next
  case (Inr rows)
  then obtain items' where "get_feed cursor limit d = Inr items'" "map item_row items' = rows"
    using get_feed_Inr by blast
  then show ?thesis using assms Inr by simp
qed

lemma select_posts_absent:
  "\<not> truthy cursor \<Longrightarrow> sql_int limit \<Longrightarrow>
   select_posts cursor limit d = Inr (sql_limit limit (order_by_id_desc (posts d)))"
  by (simp add: select_posts_def)

lemma select_posts_present:
  "c \<noteq> 0 \<Longrightarrow> sql_int c \<Longrightarrow> sql_int limit \<Longrightarrow>
   select_posts (Some c) limit d =
     Inr (sql_limit limit (order_by_id_desc (filter (\<lambda>r. fst r < c) (posts d))))"
  by (simp add: select_posts_def truthy_def case_prod_unfold)

lemma select_posts_Inr:
  assumes "select_posts cursor limit d = Inr rows"
  shows "\<exists>matching. rows = sql_limit limit (order_by_id_desc matching)"
  using assms by (auto simp: select_posts_def split: if_splits)

lemma feed_page_absent:
  assumes "distinct (post_ids d)" and "sql_int limit" and "\<not> truthy cursor"
  shows "\<exists>items. get_feed cursor limit d = Inr items \<and>
           sorted_wrt (>) (map fst (map item_row items)) \<and>
           set (map item_row items) \<subseteq> set (posts d) \<and>
           length (map item_row items) =
             (if limit < 0 then length (posts d) else min (nat limit) (length (posts d))) \<and>
           (\<forall>r \<in> set (posts d). r \<notin> set (map item_row items) \<longrightarrow>
              (\<forall>q \<in> set (map item_row items). fst r < fst q))"
proof -
  have ids: "distinct (map fst (posts d))"
    using assms(1) by (simp add: post_ids_def)
  obtain items where items: "get_feed cursor limit d = Inr items"
      and rows: "map item_row items = sql_limit limit (order_by_id_desc (posts d))"
    using get_feed_Inr [OF select_posts_absent [OF assms(3,2)]] by blast
  show ?thesis
    using items page_properties [OF ids, of limit] unfolding rows [symmetric]
    by (intro exI [of _ items]) blast
qed

lemma feed_page_present:
  assumes "distinct (post_ids d)" and "sql_int limit" and "c \<noteq> 0" and "sql_int c"
  shows "\<exists>items. get_feed (Some c) limit d = Inr items \<and>
           sorted_wrt (>) (map fst (map item_row items)) \<and>
           (\<forall>q \<in> set (map item_row items). q \<in> set (posts d) \<and> fst q < c) \<and>
           length (map item_row items) =
             (if limit < 0 then length (filter (\<lambda>r. fst r < c) (posts d))
              else min (nat limit) (length (filter (\<lambda>r. fst r < c) (posts d)))) \<and>
           (\<forall>r \<in> set (filter (\<lambda>r. fst r < c) (posts d)). r \<notin> set (map item_row items) \<longrightarrow>
              (\<forall>q \<in> set (map item_row items). fst r < fst q))"
proof -
  let ?older = "filter (\<lambda>r. fst r < c) (posts d)"
  have dist: "distinct (map fst ?older)"
    using assms(1) by (simp add: post_ids_def distinct_map_filter)
  obtain items where items: "get_feed (Some c) limit d = Inr items"
      and rows: "map item_row items = sql_limit limit (order_by_id_desc ?older)"
    using get_feed_Inr [OF select_posts_present [OF assms(3,4,2)]] by blast
  have sub: "set (map item_row items) \<subseteq> set ?older"
    unfolding rows by (rule page_properties(2) [OF dist])
  have mem: "\<forall>q \<in> set (map item_row items). q \<in> set (posts d) \<and> fst q < c"
    using sub by auto
  show ?thesis
    using items mem page_properties(1,3,4) [OF dist, of limit] unfolding rows [symmetric]
    by (intro exI [of _ items]) blast
qed

lemma db3_ids_distinct: "distinct (post_ids db3)"
  by (simp add: db3_value post_ids_def)

lemma db3_feed_no_cursor:
  "get_feed None 2 db3 = Inr items \<Longrightarrow>
   map item_row items = [(300, py_str ''c'', 0), (200, py_str ''b'', 0)]"
  using get_feed_rows [of None 2 db3 items]
  by (simp add: select_posts_def truthy_def db3_value order_by_id_desc_def sql_limit_def
      sql_int_def)

text \<open>
  Claim C1, as amended. In a posts table with unique ids and for a limit within
  signed 64 bits: without a cursor \<open>get_feed\<close> returns posts of the table in strictly
  descending order of id, every post left out being older than every post returned,
  and for a limit that is not negative \<open>min limit n\<close> of the \<open>n\<close> posts; with a
  cursor other than 0 and within signed 64 bits the same holds among the posts whose
  id is below the cursor, and only such posts are returned. A cursor outside signed
  64 bits makes the call raise.
\<close>

theorem get_feed_page:
  assumes "distinct (post_ids d)" and "sql_int limit"
  shows "(\<exists>items. get_feed None limit d = Inr items \<and>
            (let page = map item_row items in
               sorted_wrt (>) (map fst page) \<and>
               set page \<subseteq> set (posts d) \<and>
               (0 \<le> limit \<longrightarrow> length page = min (nat limit) (length (posts d))) \<and>
               (\<forall>r \<in> set (posts d). r \<notin> set page \<longrightarrow> (\<forall>q \<in> set page. fst r < fst q)))) \<and>
         (c \<noteq> 0 \<and> sql_int c \<longrightarrow>
            (\<exists>items. get_feed (Some c) limit d = Inr items \<and>
               (let page = map item_row items;
                    older = filter (\<lambda>r. fst r < c) (posts d) in
                sorted_wrt (>) (map fst page) \<and>
                (\<forall>q \<in> set page. q \<in> set (posts d) \<and> fst q < c) \<and>
                (0 \<le> limit \<longrightarrow> length page = min (nat limit) (length older)) \<and>
                (\<forall>r \<in> set older. r \<notin> set page \<longrightarrow> (\<forall>q \<in> set page. fst r < fst q))))) \<and>
         (c \<noteq> 0 \<and> \<not> sql_int c \<longrightarrow> get_feed (Some c) limit d = Inl OverflowError)"
proof (intro conjI impI)
  have "\<not> truthy None"
    by (simp add: truthy_def)
  from feed_page_absent [OF assms this]
  obtain items where items: "get_feed None limit d = Inr items"
    and p: "sorted_wrt (>) (map fst (map item_row items))"
      "set (map item_row items) \<subseteq> set (posts d)"
      "length (map item_row items) =
         (if limit < 0 then length (posts d) else min (nat limit) (length (posts d)))"
      "\<forall>r \<in> set (posts d). r \<notin> set (map item_row items) \<longrightarrow>
         (\<forall>q \<in> set (map item_row items). fst r < fst q)"
    by blast
  have len: "0 \<le> limit \<longrightarrow> length (map item_row items) = min (nat limit) (length (posts d))"
    using p(3) by simp
  show "\<exists>items. get_feed None limit d = Inr items \<and>
            (let page = map item_row items in
               sorted_wrt (>) (map fst page) \<and>
               set page \<subseteq> set (posts d) \<and>
               (0 \<le> limit \<longrightarrow> length page = min (nat limit) (length (posts d))) \<and>
               (\<forall>r \<in> set (posts d). r \<notin> set page \<longrightarrow> (\<forall>q \<in> set page. fst r < fst q)))"
    unfolding Let_def using items p(1,2,4) len by (intro exI [of _ items]) blast
next
  assume c: "c \<noteq> 0 \<and> sql_int c"
  let ?older = "filter (\<lambda>r. fst r < c) (posts d)"
  from c feed_page_present [OF assms, of c]
  obtain items where items: "get_feed (Some c) limit d = Inr items"
    and p: "sorted_wrt (>) (map fst (map item_row items))"
      "\<forall>q \<in> set (map item_row items). q \<in> set (posts d) \<and> fst q < c"
      "length (map item_row items) =
         (if limit < 0 then length ?older else min (nat limit) (length ?older))"
      "\<forall>r \<in> set ?older. r \<notin> set (map item_row items) \<longrightarrow>
         (\<forall>q \<in> set (map item_row items). fst r < fst q)"
    by blast
  have len: "0 \<le> limit \<longrightarrow> length (map item_row items) = min (nat limit) (length ?older)"
    using p(3) by simp
  show "\<exists>items. get_feed (Some c) limit d = Inr items \<and>
               (let page = map item_row items;
                    older = filter (\<lambda>r. fst r < c) (posts d) in
                sorted_wrt (>) (map fst page) \<and>
                (\<forall>q \<in> set page. q \<in> set (posts d) \<and> fst q < c) \<and>
                (0 \<le> limit \<longrightarrow> length page = min (nat limit) (length older)) \<and>
                (\<forall>r \<in> set older. r \<notin> set page \<longrightarrow> (\<forall>q \<in> set page. fst r < fst q)))"
    unfolding Let_def using items p(1,2,4) len by (intro exI [of _ items]) blast
next
  assume "c \<noteq> 0 \<and> \<not> sql_int c"
  then show "get_feed (Some c) limit d = Inl OverflowError"
    by (simp add: get_feed_def select_posts_def truthy_def)
qed

theorem get_feed_page_witness:
  "distinct (post_ids db3) \<and> sql_int 2 \<and> sql_int (- 1) \<and> sql_int 200 \<and>
   map_sum id (map item_row) (get_feed None 2 db3) =
     Inr [(300, py_str ''c'', 0), (200, py_str ''b'', 0)] \<and>
   map_sum id (map item_row) (get_feed (Some 200) 2 db3) = Inr [(100, py_str ''a'', 0)] \<and>
   map_sum id (map item_row) (get_feed (Some 200) (- 1) db3) = Inr [(100, py_str ''a'', 0)] \<and>
   (\<exists>items. get_feed None 2 db3 = Inr items \<and>
      sorted_wrt (>) (map fst (map item_row items)) \<and> length (map item_row items) = 2) \<and>
   (\<exists>items. get_feed (Some 200) (- 1) db3 = Inr items \<and>
      sorted_wrt (>) (map fst (map item_row items)) \<and>
      list_all (\<lambda>q. fst q < 200) (map item_row items)) \<and>
   get_feed (Some 9223372036854775808) 2 db3 = Inl OverflowError"
proof -
  have bind: "sql_int 2" "sql_int (- 1)" "sql_int 200" "\<not> sql_int 9223372036854775808"
    by (simp_all add: sql_int_def)
  have p1: "map_sum id (map item_row) (get_feed None 2 db3) =
      Inr [(300, py_str ''c'', 0), (200, py_str ''b'', 0)]"
    by (simp add: get_feed_def select_posts_def truthy_def db3_value order_by_id_desc_def
        sql_limit_def sql_int_def item_row_def)
  have p2: "map_sum id (map item_row) (get_feed (Some 200) 2 db3) = Inr [(100, py_str ''a'', 0)]"
    by (simp add: get_feed_def select_posts_def truthy_def db3_value order_by_id_desc_def
        sql_limit_def sql_int_def item_row_def)
  have p3: "map_sum id (map item_row) (get_feed (Some 200) (- 1) db3) = Inr [(100, py_str ''a'', 0)]"
    by (simp add: get_feed_def select_posts_def truthy_def db3_value order_by_id_desc_def
        sql_limit_def sql_int_def item_row_def)
  note t1 = get_feed_page [OF db3_ids_distinct bind(1), of 200]
  note t2 = get_feed_page [OF db3_ids_distinct bind(2), of 200]
  note t3 = get_feed_page [OF db3_ids_distinct bind(1), of 9223372036854775808]
  have len3: "length (posts db3) = 3"
    by (simp add: db3_value)
  have q1: "\<exists>items. get_feed None 2 db3 = Inr items \<and>
      sorted_wrt (>) (map fst (map item_row items)) \<and> length (map item_row items) = 2"
    using t1 len3 unfolding Let_def by auto
  have q2: "\<exists>items. get_feed (Some 200) (- 1) db3 = Inr items \<and>
      sorted_wrt (>) (map fst (map item_row items)) \<and>
      list_all (\<lambda>q. fst q < 200) (map item_row items)"
    using t2 bind(3) unfolding Let_def list_all_iff by auto
  have q3: "get_feed (Some 9223372036854775808) 2 db3 = Inl OverflowError"
    using t3 bind(4) by simp
  show ?thesis
    using db3_ids_distinct bind(1-3) p1 p2 p3 q1 q2 q3 by blast
qed

text \<open>
  The claim as written fails in three places: a cursor of 0 does not restrict the
  page to ids below 0, a limit of -1 lets the call return three posts, and a cursor
  of \<open>2^63\<close> makes the call raise instead of returning posts.
\<close>

theorem get_feed_page_counterexample:
  "map_sum id (map item_id) (get_feed (Some 0) 2 db3) = Inr [300, 200] \<and> \<not> (300::int) < 0 \<and>
   map_sum id (map item_id) (get_feed None (- 1) db3) = Inr [300, 200, 100] \<and>
   get_feed (Some 9223372036854775808) 2 db3 = Inl OverflowError"
  by (simp add: get_feed_def select_posts_def truthy_def db3_value order_by_id_desc_def
      sql_limit_def sql_int_def)

lemma api_feed_clamp:
  "api_feed cursor (Some limit) d = get_feed cursor (min limit 50) d"
  "api_feed cursor None d = get_feed cursor 20 d"
  by (simp_all add: api_feed_def)

lemma api_feed_bounded:
  assumes "0 \<le> limit" and "api_feed cursor (Some limit) d = Inr items"
  shows "length items \<le> 50"
proof -
  have "get_feed cursor (min limit 50) d = Inr items"
    using assms(2) by (simp add: api_feed_def)
  then have "select_posts cursor (min limit 50) d = Inr (map item_row items)"
    by (rule get_feed_rows)
  then obtain matching where
    rows: "map item_row items = sql_limit (min limit 50) (order_by_id_desc matching)"
    using select_posts_Inr by blast
  have "\<not> min limit 50 < 0"
    using assms(1) by simp
  then have "length (map item_row items) \<le> nat (min limit 50)"
    unfolding rows by (simp add: sql_limit_length)
  then show ?thesis
    using assms(1) by simp
qed

lemma get_feed_count:
  assumes "sql_int limit"
  shows "\<exists>items. get_feed None limit d = Inr items \<and>
           length items = (if limit < 0 then length (posts d) else min (nat limit) (length (posts d)))"
proof -
  have "\<not> truthy None"
    by (simp add: truthy_def)
  from get_feed_Inr [OF select_posts_absent [OF this assms]]
  obtain items where items: "get_feed None limit d = Inr items"
    and rows: "map item_row items = sql_limit limit (order_by_id_desc (posts d))"
    by blast
  have "length items = length (map item_row items)"
    by simp
  also have "\<dots> = (if limit < 0 then length (posts d) else min (nat limit) (length (posts d)))"
    unfolding rows by (simp add: sql_limit_length order_by_id_desc_length)
  finally show ?thesis
    using items by blast
qed

lemma add_posts_fresh_run:
  assumes "store_inv d" and "sorted_wrt (<) ids"
    and "\<forall>p \<in> set (post_ids d). \<forall>i \<in> set ids. p < i"
    and "\<forall>i \<in> set ids. sql_int i" and "storable x"
  shows "snd (add_posts (map (\<lambda>i. (i, i, x)) ids) d) =
         \<lparr>posts = posts d @ map (\<lambda>i. (i, x, i)) ids,
          reactions = reactions d @ concat (map (\<lambda>i. map (\<lambda>t. (i, t, 0)) REACTIONS) ids)\<rparr>"
  using assms
proof (induction ids arbitrary: d)
  case Nil
  then show ?case by simp
next
  case (Cons i ids)
  let ?d1 = "\<lparr>posts = posts d @ [(i, x, i)],
              reactions = reactions d @
                [(i, py_str ''support'', 0), (i, py_str ''hug'', 0), (i, py_str ''sad'', 0)]\<rparr>"
  have fresh: "i \<notin> set (post_ids d)"
    using Cons.prems(3) by auto
  have bind: "sql_int i" and binds: "\<forall>j \<in> set ids. sql_int j"
    using Cons.prems(4) by auto
  have call: "add_post i i x d = Inr (i, ?d1)"
    by (rule add_post_fresh [OF Cons.prems(1) fresh bind Cons.prems(5) bind])
  have inv1: "store_inv ?d1"
    by (rule store_inv_add_post [OF Cons.prems(1) fresh])
  have srt: "sorted_wrt (<) ids" and above: "\<forall>j \<in> set ids. i < j"
    using Cons.prems(2) by auto
  have older: "\<forall>p \<in> set (post_ids ?d1). \<forall>j \<in> set ids. p < j"
    using Cons.prems(3) above by (auto simp: post_ids_def)
  have "snd (add_posts (map (\<lambda>i. (i, i, x)) (i # ids)) d) =
        snd (add_posts (map (\<lambda>i. (i, i, x)) ids) ?d1)"
    using call by (simp add: case_prod_unfold Let_def)
  also have "\<dots> = \<lparr>posts = posts ?d1 @ map (\<lambda>i. (i, x, i)) ids,
          reactions = reactions ?d1 @ concat (map (\<lambda>i. map (\<lambda>t. (i, t, 0)) REACTIONS) ids)\<rparr>"
    by (rule Cons.IH [OF inv1 srt older binds Cons.prems(5)])
  finally show ?case
    by (simp add: REACTIONS_def)
qed

lemma db51_reachable:
  "snd (add_posts (map (\<lambda>i. (i, i, py_str ''x'')) [1..51]) (init_db None)) = db51"
proof -
  have inv: "store_inv (init_db None)"
    by (simp add: store_inv_def init_db_def post_ids_def reaction_keys_def)
  have srt: "sorted_wrt (<) [1..51::int]"
    by (simp add: strict_sorted_iff)
  have none: "\<forall>p \<in> set (post_ids (init_db None)). \<forall>i \<in> set [1..51]. p < i"
    by (simp add: init_db_def post_ids_def)
  have bind: "\<forall>i \<in> set [1..51]. sql_int i"
    by (simp add: sql_int_def)
  have st: "storable (py_str ''x'')"
    by (simp add: storable_def is_surrogate_def py_str_def)
  show ?thesis
    unfolding add_posts_fresh_run [OF inv srt none bind st]
    by (simp add: db51_def init_db_def)
qed

text \<open>
  Claim C2. The handler passes \<open>min limit 50\<close> on, but a negative limit stays
  negative and the query then has no bound: on the store of 51 posts
  \<open>GET /feed?limit=-1\<close> answers with all 51.
\<close>

theorem api_feed_negative_limit:
  "snd (add_posts (map (\<lambda>i. (i, i, py_str ''x'')) [1..51]) (init_db None)) = db51 \<and>
   api_feed None (Some (- 1)) db51 = get_feed None (min (- 1) 50) db51 \<and>
   (\<exists>items. api_feed None (Some (- 1)) db51 = Inr items \<and> length items = 51)"
proof -
  have "sql_int (- 1)"
    by (simp add: sql_int_def)
  from get_feed_count [OF this, of db51]
  obtain items where "get_feed None (- 1) db51 = Inr items" "length items = length (posts db51)"
    by auto
  moreover have "length (posts db51) = 51"
    by (simp add: db51_def)
  ultimately have "\<exists>items. api_feed None (Some (- 1)) db51 = Inr items \<and> length items = 51"
    by (simp add: api_feed_def)
  then show ?thesis
    by (simp add: db51_reachable) (simp add: api_feed_def)
qed

text \<open>
  Claim C10. A cursor equal to 0 is false for Python, so \<open>get_feed\<close> takes the branch
  of the absent cursor: the result is the one of a call without a cursor, that is,
  for a limit that is not negative, the newest \<open>limit\<close> posts of the whole table in
  descending order of id. With the posts 100, 200, 300 and the limit 2 it returns 300
  and 200, although no post has an id below 0.
\<close>

theorem get_feed_cursor_zero:
  "get_feed (Some 0) limit d = get_feed None limit d \<and>
   (distinct (post_ids d) \<and> sql_int limit \<and> 0 \<le> limit \<longrightarrow>
      (\<exists>items. get_feed (Some 0) limit d = Inr items \<and>
         (let page = map item_row items in
            sorted_wrt (>) (map fst page) \<and>
            set page \<subseteq> set (posts d) \<and>
            length page = min (nat limit) (length (posts d)) \<and>
            (\<forall>r \<in> set (posts d). r \<notin> set page \<longrightarrow> (\<forall>q \<in> set page. fst r < fst q))))) \<and>
   map_sum id (map item_id) (get_feed (Some 0) 2 db3) = Inr [300, 200] \<and>
   filter (\<lambda>r. fst r < 0) (posts db3) = []"
proof (intro conjI impI)
  show "get_feed (Some 0) limit d = get_feed None limit d"
    by (simp add: get_feed_def select_posts_def truthy_def)
next
  assume a: "distinct (post_ids d) \<and> sql_int limit \<and> 0 \<le> limit"
  have "\<not> truthy (Some 0)"
    by (simp add: truthy_def)
  from a feed_page_absent [OF _ _ this, of d limit]
  obtain items where items: "get_feed (Some 0) limit d = Inr items"
    and p: "sorted_wrt (>) (map fst (map item_row items))"
      "set (map item_row items) \<subseteq> set (posts d)"
      "length (map item_row items) =
         (if limit < 0 then length (posts d) else min (nat limit) (length (posts d)))"
      "\<forall>r \<in> set (posts d). r \<notin> set (map item_row items) \<longrightarrow>
         (\<forall>q \<in> set (map item_row items). fst r < fst q)"
    by blast
  have len: "length (map item_row items) = min (nat limit) (length (posts d))"
    using p(3) a by simp
  show "\<exists>items. get_feed (Some 0) limit d = Inr items \<and>
         (let page = map item_row items in
            sorted_wrt (>) (map fst page) \<and>
            set page \<subseteq> set (posts d) \<and>
            length page = min (nat limit) (length (posts d)) \<and>
            (\<forall>r \<in> set (posts d). r \<notin> set page \<longrightarrow> (\<forall>q \<in> set page. fst r < fst q)))"
    unfolding Let_def using items p(1,2,4) len by (intro exI [of _ items]) blast
next
  show "map_sum id (map item_id) (get_feed (Some 0) 2 db3) = Inr [300, 200]"
    by (simp add: get_feed_def select_posts_def truthy_def db3_value order_by_id_desc_def
        sql_limit_def sql_int_def)
next
  show "filter (\<lambda>r. fst r < 0) (posts db3) = []"
    by (simp add: db3_value)
qed

theorem get_feed_cursor_zero_witness:
  "distinct (post_ids db3) \<and> sql_int 2 \<and> (0::int) \<le> 2 \<and>
   get_feed (Some 0) 2 db3 = get_feed None 2 db3 \<and>
   (\<exists>items. get_feed (Some 0) 2 db3 = Inr items \<and>
      map item_row items = [(300, py_str ''c'', 0), (200, py_str ''b'', 0)] \<and>
      sorted_wrt (>) (map fst (map item_row items)) \<and>
      length (map item_row items) = 2)"
proof -
  have bind: "sql_int 2"
    by (simp add: sql_int_def)
  note t = get_feed_cursor_zero [of 2 db3]
  have same: "get_feed (Some 0) 2 db3 = get_feed None 2 db3"
    using t by blast
  have len3: "length (posts db3) = 3"
    by (simp add: db3_value)
  have hyp: "distinct (post_ids db3) \<and> sql_int 2 \<and> (0::int) \<le> 2"
    using db3_ids_distinct bind by simp
  from t hyp
  have "\<exists>items. get_feed (Some 0) 2 db3 = Inr items \<and>
         (let page = map item_row items in
            sorted_wrt (>) (map fst page) \<and>
            set page \<subseteq> set (posts db3) \<and>
            length page = min (nat 2) (length (posts db3)) \<and>
            (\<forall>r \<in> set (posts db3). r \<notin> set page \<longrightarrow> (\<forall>q \<in> set page. fst r < fst q)))"
    by blast
  then obtain items where items: "get_feed (Some 0) 2 db3 = Inr items"
    and p: "sorted_wrt (>) (map fst (map item_row items))"
      "length (map item_row items) = min (nat 2) (length (posts db3))"
    unfolding Let_def by blast
  have rows: "map item_row items = [(300, py_str ''c'', 0), (200, py_str ''b'', 0)]"
    using items same db3_feed_no_cursor by simp
  have len2: "length (map item_row items) = 2"
    using p(2) len3 by simp
  have ex: "\<exists>items. get_feed (Some 0) 2 db3 = Inr items \<and>
      map item_row items = [(300, py_str ''c'', 0), (200, py_str ''b'', 0)] \<and>
      sorted_wrt (>) (map fst (map item_row items)) \<and>
      length (map item_row items) = 2"
  proof (intro exI conjI)
    show "get_feed (Some 0) 2 db3 = Inr items" by (rule items)
    show "map item_row items = [(300, py_str ''c'', 0), (200, py_str ''b'', 0)]" by (rule rows)
    show "sorted_wrt (>) (map fst (map item_row items))" by (rule p(1))
    show "length (map item_row items) = 2" by (rule len2)
  qed
  show ?thesis
    by (intro conjI) (rule db3_ids_distinct, rule bind, simp, rule same, rule ex)
qed


end
